theory Spec2Isabelle
  imports Complex_Main "HOL-Library.Monad_Syntax"
begin

section \<open>The plane primitive of the shape detection (\<open>Plane.h\<close>)\<close>

text \<open>
  The class \<open>Plane\<close> is a template over the number type \<open>Traits::FT\<close>, a
  field with a square root. The embedding instantiates \<open>FT\<close> with the type \<^typ>\<open>real\<close>:
  every arithmetic operation is exact. The theorems below are about the control flow
  of the operations, the formulas that they evaluate, the order of the values that they
  compare, and their accesses to vectors. They say nothing about what rounding,
  overflow or a NaN do to a computed number: the length of the stored normal, the
  distance of a sample point, the cosine of an angle or a reconstructed point under a
  floating-point \<open>FT\<close> are outside of this embedding. An index (\<open>std::size_t\<close>) is a
  \<^typ>\<open>nat\<close>; no index arithmetic of the class can overflow, the only operation being
  \<open>i++\<close> below the size of a vector.
\<close>

subsection \<open>Kernel objects\<close>

text \<open>
  Modelled from the spec: the types \<open>Traits::Point_3\<close> and \<open>Traits::Vector_3\<close> and their
  operations (difference of two points, cross product, scalar product, scaling by a
  number, squared length) belong to the geometry kernel, which is outside of
  \<open>Plane.h\<close>. They are the usual operations on Cartesian coordinates, which the spec
  writes \<open>p - q\<close>, \<open>cross\<close>, \<open>\<cdot>\<close> and \<open>|v|\<close>.
\<close>

datatype Point_3 = Point_3 (px: real) (py: real) (pz: real)

datatype Vector_3 = Vector_3 (vx: real) (vy: real) (vz: real)

text \<open>\<open>p - q\<close> on two points.\<close>

definition point_minus :: "Point_3 \<Rightarrow> Point_3 \<Rightarrow> Vector_3" where
  "point_minus p q = Vector_3 (px p - px q) (py p - py q) (pz p - pz q)"

text \<open>\<open>CGAL::cross_product(u, v)\<close>.\<close>

definition cross_product :: "Vector_3 \<Rightarrow> Vector_3 \<Rightarrow> Vector_3" where
  "cross_product u v =
     Vector_3 (vy u * vz v - vz u * vy v)
              (vz u * vx v - vx u * vz v)
              (vx u * vy v - vy u * vx v)"

text \<open>\<open>u * v\<close> on two vectors: the scalar product.\<close>

definition scalar_product :: "Vector_3 \<Rightarrow> Vector_3 \<Rightarrow> real" where
  "scalar_product u v = vx u * vx v + vy u * vy v + vz u * vz v"

text \<open>\<open>v * c\<close> on a vector and a number.\<close>

definition scaled :: "Vector_3 \<Rightarrow> real \<Rightarrow> Vector_3" where
  "scaled v c = Vector_3 (vx v * c) (vy v * c) (vz v * c)"

text \<open>\<open>v.squared_length()\<close>.\<close>

definition squared_length :: "Vector_3 \<Rightarrow> real" where
  "squared_length v = vx v * vx v + vy v * vy v + vz v * vz v"

subsection \<open>Vectors of the standard library\<close>

text \<open>
  \<open>v[i]\<close> on a \<open>std::vector\<close> is defined only below \<open>v.size()\<close>. An access out of range
  is the value \<open>None\<close>, and it makes the result of the whole operation \<open>None\<close>.
\<close>

definition vec_at :: "'a list \<Rightarrow> nat \<Rightarrow> 'a option" where
  "vec_at xs i = (if i < length xs then Some (xs ! i) else None)"

definition vec_set :: "'a list \<Rightarrow> nat \<Rightarrow> 'a \<Rightarrow> 'a list option" where
  "vec_set xs i v = (if i < length xs then Some (xs[i := v]) else None)"

text \<open>\<open>std::min<FT>(a, b)\<close> and \<open>std::max<FT>(a, b)\<close>.\<close>

definition std_min :: "real \<Rightarrow> real \<Rightarrow> real" where
  "std_min a b = (if b < a then b else a)"

definition std_max :: "real \<Rightarrow> real \<Rightarrow> real" where
  "std_max a b = (if a < b then b else a)"

subsection \<open>The state of a plane\<close>

text \<open>
  Modelled from the spec: the members \<open>m_is_valid\<close> and \<open>m_normal_threshold\<close> are
  declared in the base class \<open>Shape_base\<close>, which is outside of \<open>Plane.h\<close>; the spec
  calls them \<open>is_valid\<close> and \<open>normal_consistency_threshold\<close>. The other five fields
  are the private members of \<open>Plane\<close>. The accessors \<open>this->point(i)\<close> and
  \<open>this->normal(i)\<close> of the base class read the input range through property maps:
  they are the parameters \<open>point\<close> and \<open>normal\<close> of the operations below, defined
  on every index. The constructor of the base class is outside of \<open>Plane.h\<close> as well:
  by the spec \<open>is_valid\<close> is false until the fitting step sets it, so a theorem about
  \<open>create_shape\<close> on a new plane assumes that \<open>m_is_valid\<close> is false before the call.
  The state before the call is otherwise arbitrary.
\<close>

record Plane =
  m_is_valid :: bool
  m_normal_threshold :: real
  m_point_on_primitive :: Point_3
  m_base1 :: Vector_3
  m_base2 :: Vector_3
  m_normal :: Vector_3
  m_d :: real

subsection \<open>\<open>create_shape\<close>\<close>

text \<open>
  The loop \<open>for (i = 0; i < 3; i++)\<close> of \<open>create_shape\<close>, entered at \<open>i\<close>. A normal
  that deviates too much sets \<open>m_is_valid = false\<close> and returns; otherwise the
  iteration writes the point on the primitive and the two base vectors. After the
  loop \<open>m_is_valid = true\<close>.
\<close>

function check_normals ::
  "(nat \<Rightarrow> Vector_3) \<Rightarrow> nat list \<Rightarrow> Point_3 \<Rightarrow> Point_3 \<Rightarrow> nat \<Rightarrow> Plane \<Rightarrow> Plane option"
where
  "check_normals normal indices p1 p2 i s =
    (if i < 3 then
       do {
         k \<leftarrow> vec_at indices i;
         let l_v = normal k;
         if \<bar>scalar_product l_v (m_normal s)\<bar>
              < m_normal_threshold s * sqrt (squared_length l_v)
         then Some (s\<lparr>m_is_valid := False\<rparr>)
         else
           let s = s\<lparr>m_point_on_primitive := p1\<rparr>;
               s = s\<lparr>m_base1 := cross_product (point_minus p1 p2) (m_normal s)\<rparr>;
               s = s\<lparr>m_base1 := scaled (m_base1 s) (1 / sqrt (squared_length (m_base1 s)))\<rparr>;
               s = s\<lparr>m_base2 := cross_product (m_base1 s) (m_normal s)\<rparr>;
               s = s\<lparr>m_base2 := scaled (m_base2 s) (1 / sqrt (squared_length (m_base2 s)))\<rparr>
           in check_normals normal indices p1 p2 (i + 1) s
       }
     else Some (s\<lparr>m_is_valid := True\<rparr>))"
  by pat_completeness auto
termination
  by (relation "measure (\<lambda>(normal, indices, p1, p2, i, s). 3 - i)") auto

definition create_shape ::
  "(nat \<Rightarrow> Point_3) \<Rightarrow> (nat \<Rightarrow> Vector_3) \<Rightarrow> nat list \<Rightarrow> Plane \<Rightarrow> Plane option"
where
  "create_shape point normal indices s =
     do {
       i0 \<leftarrow> vec_at indices 0;
       i1 \<leftarrow> vec_at indices 1;
       i2 \<leftarrow> vec_at indices 2;
       let p1 = point i0;
           p2 = point i1;
           p3 = point i2;
           s = s\<lparr>m_normal := cross_product (point_minus p1 p2) (point_minus p1 p3)\<rparr>;
           len = sqrt (squared_length (m_normal s))
       in
         if len < 1 / 10000 then Some s
         else
           let s = s\<lparr>m_normal := scaled (m_normal s) (1 / len)\<rparr>;
               s = s\<lparr>m_d := - (px p1 * vx (m_normal s) + py p1 * vy (m_normal s)
                               + pz p1 * vz (m_normal s))\<rparr>
           in check_normals normal indices p1 p2 0 s
     }"

text \<open>
  The variant that the spec compares \<open>create_shape\<close> with: the loop only checks the
  three normals, and the point on the primitive and the two base vectors are computed
  once, after the loop.
\<close>

function check_normals_only ::
  "(nat \<Rightarrow> Vector_3) \<Rightarrow> nat list \<Rightarrow> nat \<Rightarrow> Plane \<Rightarrow> (bool \<times> Plane) option"
where
  "check_normals_only normal indices i s =
    (if i < 3 then
       do {
         k \<leftarrow> vec_at indices i;
         let l_v = normal k;
         if \<bar>scalar_product l_v (m_normal s)\<bar>
              < m_normal_threshold s * sqrt (squared_length l_v)
         then Some (False, s\<lparr>m_is_valid := False\<rparr>)
         else check_normals_only normal indices (i + 1) s
       }
     else Some (True, s))"
  by pat_completeness auto
termination
  by (relation "measure (\<lambda>(normal, indices, i, s). 3 - i)") auto

definition create_shape_hoisted ::
  "(nat \<Rightarrow> Point_3) \<Rightarrow> (nat \<Rightarrow> Vector_3) \<Rightarrow> nat list \<Rightarrow> Plane \<Rightarrow> Plane option"
where
  "create_shape_hoisted point normal indices s =
     do {
       i0 \<leftarrow> vec_at indices 0;
       i1 \<leftarrow> vec_at indices 1;
       i2 \<leftarrow> vec_at indices 2;
       let p1 = point i0;
           p2 = point i1;
           p3 = point i2;
           s = s\<lparr>m_normal := cross_product (point_minus p1 p2) (point_minus p1 p3)\<rparr>;
           len = sqrt (squared_length (m_normal s))
       in
         if len < 1 / 10000 then Some s
         else
           let s = s\<lparr>m_normal := scaled (m_normal s) (1 / len)\<rparr>;
               s = s\<lparr>m_d := - (px p1 * vx (m_normal s) + py p1 * vy (m_normal s)
                               + pz p1 * vz (m_normal s))\<rparr>
           in do {
             (passed, s) \<leftarrow> check_normals_only normal indices 0 s;
             if \<not> passed then Some s
             else
               let s = s\<lparr>m_point_on_primitive := p1\<rparr>;
                   s = s\<lparr>m_base1 := cross_product (point_minus p1 p2) (m_normal s)\<rparr>;
                   s = s\<lparr>m_base1 :=
                          scaled (m_base1 s) (1 / sqrt (squared_length (m_base1 s)))\<rparr>;
                   s = s\<lparr>m_base2 := cross_product (m_base1 s) (m_normal s)\<rparr>;
                   s = s\<lparr>m_base2 :=
                          scaled (m_base2 s) (1 / sqrt (squared_length (m_base2 s)))\<rparr>
               in Some (s\<lparr>m_is_valid := True\<rparr>)
           }
     }"

subsection \<open>Distance and angle\<close>

text \<open>
  \<open>squared_distance\<close> and \<open>cos_to_normal\<close> are overloaded in the class: the function
  \<open>squared_distance\<close> on one point keeps the name, the functions on a vector of indices
  are \<open>squared_distance_batch\<close> and \<open>cos_to_normal_batch\<close>.
\<close>

text \<open>\<open>squared_distance(const Point_3 &p)\<close>.\<close>

definition squared_distance :: "Plane \<Rightarrow> Point_3 \<Rightarrow> real" where
  "squared_distance s p =
     (let d = scalar_product (point_minus p (m_point_on_primitive s)) (m_normal s)
      in d * d)"

text \<open>
  \<open>squared_distance(indices, dists)\<close>: the loop over \<open>indices\<close>, entered at \<open>i\<close>, and
  the operation, which enters it at \<open>0\<close>. The result is the vector \<open>dists\<close> after the
  call.
\<close>

function squared_distance_loop ::
  "(nat \<Rightarrow> Point_3) \<Rightarrow> Plane \<Rightarrow> nat list \<Rightarrow> nat \<Rightarrow> real list \<Rightarrow> real list option"
where
  "squared_distance_loop point s indices i dists =
    (if i < length indices then
       do {
         k \<leftarrow> vec_at indices i;
         let d = scalar_product (point_minus (point k) (m_point_on_primitive s)) (m_normal s);
         dists \<leftarrow> vec_set dists i (d * d);
         squared_distance_loop point s indices (i + 1) dists
       }
     else Some dists)"
  by pat_completeness auto
termination
  by (relation "measure (\<lambda>(point, s, indices, i, dists). length indices - i)") auto

definition squared_distance_batch ::
  "(nat \<Rightarrow> Point_3) \<Rightarrow> Plane \<Rightarrow> nat list \<Rightarrow> real list \<Rightarrow> real list option"
where
  "squared_distance_batch point s indices dists =
     squared_distance_loop point s indices 0 dists"

text \<open>\<open>cos_to_normal(indices, angles)\<close>, in the same way.\<close>

function cos_to_normal_loop ::
  "(nat \<Rightarrow> Vector_3) \<Rightarrow> Plane \<Rightarrow> nat list \<Rightarrow> nat \<Rightarrow> real list \<Rightarrow> real list option"
where
  "cos_to_normal_loop normal s indices i angles =
    (if i < length indices then
       do {
         k \<leftarrow> vec_at indices i;
         angles \<leftarrow> vec_set angles i \<bar>scalar_product (normal k) (m_normal s)\<bar>;
         cos_to_normal_loop normal s indices (i + 1) angles
       }
     else Some angles)"
  by pat_completeness auto
termination
  by (relation "measure (\<lambda>(normal, s, indices, i, angles). length indices - i)") auto

definition cos_to_normal_batch ::
  "(nat \<Rightarrow> Vector_3) \<Rightarrow> Plane \<Rightarrow> nat list \<Rightarrow> real list \<Rightarrow> real list option"
where
  "cos_to_normal_batch normal s indices angles =
     cos_to_normal_loop normal s indices 0 angles"

definition minimum_sample_size :: nat where
  "minimum_sample_size = 3"

subsection \<open>\<open>parameters\<close>\<close>

text \<open>
  The arrays \<open>FT min[2]\<close> and \<open>FT max[2]\<close> are pairs; the operation writes both
  components of each before it reads them, so they are results only. The loop over
  \<open>indices\<close> is entered at \<open>i = 1\<close>, after the first point has initialised them.
\<close>

function parameters_loop ::
  "(nat \<Rightarrow> Point_3) \<Rightarrow> Plane \<Rightarrow> nat list \<Rightarrow> nat
     \<Rightarrow> (real \<times> real) list \<Rightarrow> real \<times> real \<Rightarrow> real \<times> real
     \<Rightarrow> ((real \<times> real) list \<times> (real \<times> real) \<times> (real \<times> real)) option"
where
  "parameters_loop point s indices i parameterSpace mn mx =
    (if i < length indices then
       do {
         k \<leftarrow> vec_at indices i;
         let p = point_minus (point k) (m_point_on_primitive s);
         let u = scalar_product p (m_base1 s);
         let v = scalar_product p (m_base2 s);
         let mn = (std_min (fst mn) u, snd mn);
         let mx = (std_max (fst mx) u, snd mx);
         let mn = (fst mn, std_min (snd mn) v);
         let mx = (fst mx, std_max (snd mx) v);
         parameterSpace \<leftarrow> vec_set parameterSpace i (u, v);
         parameters_loop point s indices (i + 1) parameterSpace mn mx
       }
     else Some (parameterSpace, mn, mx))"
  by pat_completeness auto
termination
  by (relation "measure (\<lambda>(point, s, indices, i, ps, mn, mx). length indices - i)") auto

definition parameters ::
  "(nat \<Rightarrow> Point_3) \<Rightarrow> Plane \<Rightarrow> nat list \<Rightarrow> (real \<times> real) list
     \<Rightarrow> ((real \<times> real) list \<times> (real \<times> real) \<times> (real \<times> real)) option"
where
  "parameters point s indices parameterSpace =
     do {
       k \<leftarrow> vec_at indices 0;
       let p = point_minus (point k) (m_point_on_primitive s);
       let u = scalar_product p (m_base1 s);
       let v = scalar_product p (m_base2 s);
       parameterSpace \<leftarrow> vec_set parameterSpace 0 (u, v);
       parameters_loop point s indices 1 parameterSpace (u, v) (u, v)
     }"

subsection \<open>Auxiliary notions\<close>

text \<open>
  The notions of this subsection are not functions of the class. They name pieces of
  \<open>create_shape\<close> for the proofs: the test of one normal in the loop, the writes of
  one iteration of the loop, the cross product of the sample, and the state after the
  normal and the distance to the origin have been written.
\<close>

definition deviates :: "(nat \<Rightarrow> Vector_3) \<Rightarrow> Plane \<Rightarrow> nat \<Rightarrow> bool" where
  "deviates normal s k \<longleftrightarrow>
     \<bar>scalar_product (normal k) (m_normal s)\<bar>
       < m_normal_threshold s * sqrt (squared_length (normal k))"

definition with_basis :: "Point_3 \<Rightarrow> Point_3 \<Rightarrow> Plane \<Rightarrow> Plane" where
  "with_basis p1 p2 s =
     (let s = s\<lparr>m_point_on_primitive := p1\<rparr>;
          s = s\<lparr>m_base1 := cross_product (point_minus p1 p2) (m_normal s)\<rparr>;
          s = s\<lparr>m_base1 := scaled (m_base1 s) (1 / sqrt (squared_length (m_base1 s)))\<rparr>;
          s = s\<lparr>m_base2 := cross_product (m_base1 s) (m_normal s)\<rparr>;
          s = s\<lparr>m_base2 := scaled (m_base2 s) (1 / sqrt (squared_length (m_base2 s)))\<rparr>
      in s)"

definition sample_cross :: "(nat \<Rightarrow> Point_3) \<Rightarrow> nat list \<Rightarrow> Vector_3" where
  "sample_cross point indices =
     cross_product (point_minus (point (indices ! 0)) (point (indices ! 1)))
                   (point_minus (point (indices ! 0)) (point (indices ! 2)))"

definition fitted :: "(nat \<Rightarrow> Point_3) \<Rightarrow> nat list \<Rightarrow> Plane \<Rightarrow> Plane" where
  "fitted point indices s =
     (let p1 = point (indices ! 0);
          c = sample_cross point indices;
          n = scaled c (1 / sqrt (squared_length c))
      in s\<lparr>m_normal := n, m_d := - (px p1 * vx n + py p1 * vy n + pz p1 * vz n)\<rparr>)"

text \<open>
  The pair \<open>(u, v)\<close> that \<open>parameters\<close> computes for a point, and what a running
  minimum and a running maximum over the positions from \<open>i\<close> up to \<open>n\<close> satisfy.
\<close>

definition projected :: "Plane \<Rightarrow> Point_3 \<Rightarrow> real \<times> real" where
  "projected s q =
     (scalar_product (point_minus q (m_point_on_primitive s)) (m_base1 s),
      scalar_product (point_minus q (m_point_on_primitive s)) (m_base2 s))"

definition running_min :: "real \<Rightarrow> (nat \<Rightarrow> real) \<Rightarrow> nat \<Rightarrow> nat \<Rightarrow> real \<Rightarrow> bool" where
  "running_min m f i n m' \<longleftrightarrow>
     m' \<le> m \<and> (\<forall>j. i \<le> j \<and> j < n \<longrightarrow> m' \<le> f j)
     \<and> (m' = m \<or> (\<exists>j. i \<le> j \<and> j < n \<and> m' = f j))"

definition running_max :: "real \<Rightarrow> (nat \<Rightarrow> real) \<Rightarrow> nat \<Rightarrow> nat \<Rightarrow> real \<Rightarrow> bool" where
  "running_max m f i n m' \<longleftrightarrow>
     m \<le> m' \<and> (\<forall>j. i \<le> j \<and> j < n \<longrightarrow> f j \<le> m')
     \<and> (m' = m \<or> (\<exists>j. i \<le> j \<and> j < n \<and> m' = f j))"

section \<open>The result of \<open>create_shape\<close>\<close>

declare check_normals.simps [simp del]

lemma check_normals_step:
  "i < 3 \<Longrightarrow> i < length indices \<Longrightarrow>
   check_normals normal indices p1 p2 i s =
     (if deviates normal s (indices ! i) then Some (s\<lparr>m_is_valid := False\<rparr>)
      else check_normals normal indices p1 p2 (Suc i) (with_basis p1 p2 s))"
  by (subst check_normals.simps) (simp add: vec_at_def deviates_def with_basis_def Let_def)

lemma check_normals_done:
  "\<not> i < 3 \<Longrightarrow> check_normals normal indices p1 p2 i s = Some (s\<lparr>m_is_valid := True\<rparr>)"
  by (subst check_normals.simps) simp

lemma deviates_with_basis [simp]:
  "deviates normal (with_basis p1 p2 s) k = deviates normal s k"
  by (simp add: deviates_def with_basis_def Let_def)

lemma with_basis_idem [simp]: "with_basis p1 p2 (with_basis p1 p2 s) = with_basis p1 p2 s"
  by (simp add: with_basis_def Let_def)

lemma check_normals_0:
  assumes "3 \<le> length indices"
  shows "check_normals normal indices p1 p2 0 s =
     Some (if deviates normal s (indices ! 0) then s\<lparr>m_is_valid := False\<rparr>
           else if deviates normal s (indices ! 1) \<or> deviates normal s (indices ! 2)
             then (with_basis p1 p2 s)\<lparr>m_is_valid := False\<rparr>
           else (with_basis p1 p2 s)\<lparr>m_is_valid := True\<rparr>)"
proof -
  have l: "0 < length indices" "Suc 0 < length indices" "Suc (Suc 0) < length indices"
    using assms by auto
  have s0: "check_normals normal indices p1 p2 0 s =
     (if deviates normal s (indices ! 0) then Some (s\<lparr>m_is_valid := False\<rparr>)
      else check_normals normal indices p1 p2 (Suc 0) (with_basis p1 p2 s))"
    by (rule check_normals_step) (use l in auto)
  have s1: "check_normals normal indices p1 p2 (Suc 0) (with_basis p1 p2 s) =
     (if deviates normal s (indices ! 1)
      then Some ((with_basis p1 p2 s)\<lparr>m_is_valid := False\<rparr>)
      else check_normals normal indices p1 p2 (Suc (Suc 0)) (with_basis p1 p2 s))"
    by (subst check_normals_step) (use l in auto)
  have s2: "check_normals normal indices p1 p2 (Suc (Suc 0)) (with_basis p1 p2 s) =
     (if deviates normal s (indices ! 2)
      then Some ((with_basis p1 p2 s)\<lparr>m_is_valid := False\<rparr>)
      else Some ((with_basis p1 p2 s)\<lparr>m_is_valid := True\<rparr>))"
    by (subst check_normals_step)
      (use l in \<open>auto simp: check_normals_done numeral_2_eq_2\<close>)
  show ?thesis
    unfolding s0 s1 s2 by simp
qed

lemma create_shape_unfold:
  assumes "3 \<le> length indices"
  shows "create_shape point normal indices s =
    (let p1 = point (indices ! 0); p2 = point (indices ! 1); p3 = point (indices ! 2);
         c = cross_product (point_minus p1 p2) (point_minus p1 p3);
         n = scaled c (1 / sqrt (squared_length c))
     in if sqrt (squared_length c) < 1 / 10000 then Some (s\<lparr>m_normal := c\<rparr>)
        else check_normals normal indices p1 p2 0
               (s\<lparr>m_normal := n,
                  m_d := - (px p1 * vx n + py p1 * vy n + pz p1 * vz n)\<rparr>))"
proof -
  have "0 < length indices" "1 < length indices" "2 < length indices"
    using assms by auto
  then show ?thesis
    by (simp add: create_shape_def vec_at_def Let_def)
qed

lemma create_shape_None:
  "length indices < 3 \<Longrightarrow> create_shape point normal indices s = None"
  by (cases indices; cases "tl indices"; cases "tl (tl indices)")
     (auto simp add: create_shape_def vec_at_def)

lemma with_basis_fields [simp]:
  "m_normal (with_basis p1 p2 s) = m_normal s"
  "m_d (with_basis p1 p2 s) = m_d s"
  "m_is_valid (with_basis p1 p2 s) = m_is_valid s"
  "m_normal_threshold (with_basis p1 p2 s) = m_normal_threshold s"
  "m_point_on_primitive (with_basis p1 p2 s) = p1"
  by (simp_all add: with_basis_def Let_def)

lemma fitted_fields [simp]:
  "m_normal (fitted point indices s) =
     scaled (sample_cross point indices) (1 / sqrt (squared_length (sample_cross point indices)))"
  "m_is_valid (fitted point indices s) = m_is_valid s"
  "m_normal_threshold (fitted point indices s) = m_normal_threshold s"
  "m_point_on_primitive (fitted point indices s) = m_point_on_primitive s"
  "m_base1 (fitted point indices s) = m_base1 s"
  "m_base2 (fitted point indices s) = m_base2 s"
  by (simp_all add: fitted_def Let_def)

lemma create_shape_cases:
  assumes "3 \<le> length indices"
  shows "create_shape point normal indices s =
    Some (let t = fitted point indices s;
              p1 = point (indices ! 0); p2 = point (indices ! 1)
          in if sqrt (squared_length (sample_cross point indices)) < 1 / 10000
               then s\<lparr>m_normal := sample_cross point indices\<rparr>
             else if deviates normal t (indices ! 0) then t\<lparr>m_is_valid := False\<rparr>
             else if deviates normal t (indices ! 1) \<or> deviates normal t (indices ! 2)
               then (with_basis p1 p2 t)\<lparr>m_is_valid := False\<rparr>
             else (with_basis p1 p2 t)\<lparr>m_is_valid := True\<rparr>)"
  using assms
  by (simp add: create_shape_unfold check_normals_0 Let_def sample_cross_def fitted_def)


section \<open>Properties of the fitting step\<close>







lemma create_shape_example:
  "create_shape ((!) [Point_3 0 0 0, Point_3 1 0 0, Point_3 0 1 0])
      (\<lambda>k. Vector_3 0 0 1) [0, 1, 2]
      \<lparr>m_is_valid = False, m_normal_threshold = 9 / 10,
       m_point_on_primitive = Point_3 5 5 5, m_base1 = Vector_3 0 0 0,
       m_base2 = Vector_3 0 0 0, m_normal = Vector_3 0 0 0, m_d = 3\<rparr>
   = Some \<lparr>m_is_valid = True, m_normal_threshold = 9 / 10,
       m_point_on_primitive = Point_3 0 0 0, m_base1 = Vector_3 0 1 0,
       m_base2 = Vector_3 1 0 0, m_normal = Vector_3 0 0 1, m_d = 0\<rparr>"
  by (simp add: create_shape_def vec_at_def Let_def check_normals.simps
      cross_product_def point_minus_def squared_length_def scalar_product_def scaled_def)

section \<open>The batch evaluators\<close>

declare squared_distance_loop.simps [simp del]

lemma squared_distance_loop_step:
  "i < length indices \<Longrightarrow> i < length dists \<Longrightarrow>
   squared_distance_loop point s indices i dists =
     squared_distance_loop point s indices (Suc i)
       (dists[i := squared_distance s (point (indices ! i))])"
  by (subst squared_distance_loop.simps)
    (simp add: vec_at_def vec_set_def squared_distance_def Let_def)

lemma squared_distance_loop_fail:
  "i < length indices \<Longrightarrow> \<not> i < length dists \<Longrightarrow>
   squared_distance_loop point s indices i dists = None"
  by (subst squared_distance_loop.simps) (simp add: vec_at_def vec_set_def Let_def)

lemma squared_distance_loop_done:
  "\<not> i < length indices \<Longrightarrow> squared_distance_loop point s indices i dists = Some dists"
  by (subst squared_distance_loop.simps) simp

lemma squared_distance_loop_result:
  assumes "length indices \<le> length dists"
  shows "\<exists>ds. squared_distance_loop point s indices i dists = Some ds
           \<and> length ds = length dists
           \<and> (\<forall>j<length dists. ds ! j =
                 (if i \<le> j \<and> j < length indices
                  then squared_distance s (point (indices ! j)) else dists ! j))"
  using assms
proof (induction "length indices - i" arbitrary: i dists)
  case 0
  then have "\<not> i < length indices" by simp
  then show ?case
    by (simp add: squared_distance_loop_done)
next
  case (Suc m)
  then have i: "i < length indices" and il: "i < length dists" by simp_all
  let ?ds = "dists[i := squared_distance s (point (indices ! i))]"
  have "m = length indices - Suc i" using Suc.hyps(2) by simp
  moreover have "length indices \<le> length ?ds" using Suc.prems by simp
  ultimately obtain ds where ds: "squared_distance_loop point s indices (Suc i) ?ds = Some ds"
    "length ds = length ?ds"
    "\<forall>j<length ?ds. ds ! j =
        (if Suc i \<le> j \<and> j < length indices
         then squared_distance s (point (indices ! j)) else ?ds ! j)"
    using Suc.hyps(1) [of "Suc i" ?ds] by blast
  have "ds ! j = (if i \<le> j \<and> j < length indices
                  then squared_distance s (point (indices ! j)) else dists ! j)"
    if "j < length dists" for j
  proof (cases "j = i")
    case True
    then show ?thesis using ds(3) that i il by simp
  next
    case False
    then show ?thesis using ds(3) that by (auto simp add: Suc_le_eq)
  qed
  then show ?case
    using ds(1,2) by (simp add: squared_distance_loop_step [OF i il])
qed

lemma squared_distance_loop_None:
  assumes "i < length indices" "i \<le> length dists" "length dists < length indices"
  shows "squared_distance_loop point s indices i dists = None"
  using assms
proof (induction "length dists - i" arbitrary: i dists)
  case 0
  then show ?case by (simp add: squared_distance_loop_fail)
next
  case (Suc m)
  then have il: "i < length dists" by simp
  let ?ds = "dists[i := squared_distance s (point (indices ! i))]"
  have "squared_distance_loop point s indices (Suc i) ?ds = None"
    using Suc.hyps(1) [of ?ds "Suc i"] Suc.hyps(2) Suc.prems il by simp
  then show ?case
    using Suc.prems il by (simp add: squared_distance_loop_step)
qed

lemma squared_distance_loop_cong:
  assumes "m_point_on_primitive s' = m_point_on_primitive s" "m_normal s' = m_normal s"
  shows "squared_distance_loop point s' indices i dists =
         squared_distance_loop point s indices i dists"
proof (induction "length indices - i" arbitrary: i dists)
  case 0
  then have "\<not> i < length indices" by simp
  then show ?case by (simp add: squared_distance_loop_done)
next
  case (Suc m)
  then have i: "i < length indices" by simp
  have sd: "squared_distance s' p = squared_distance s p" for p
    using assms by (simp add: squared_distance_def)
  show ?case
  proof (cases "i < length dists")
    case True
    have "m = length indices - Suc i" using Suc.hyps(2) by simp
    then show ?thesis
      using Suc.hyps(1) [of "Suc i"] by (simp add: squared_distance_loop_step [OF i True] sd)
  next
    case False
    then show ?thesis by (simp add: squared_distance_loop_fail [OF i])
  qed
qed

text \<open>
  C5. \<open>squared_distance(p)\<close> returns \<open>((p - m_point_on_primitive) \<cdot> m_normal)\<^sup>2\<close>, and
  the batch \<open>squared_distance(indices, dists)\<close>, on an output vector at least as long as
  \<open>indices\<close>, writes this value for the point \<open>indices[i]\<close> into \<open>dists[i]\<close> at every
  position \<open>i\<close> below the size of \<open>indices\<close>, and leaves the later entries as they were.
  Neither result depends on \<open>m_d\<close>. This holds for every plane, valid or not.
\<close>

theorem squared_distance_anchor_normal:
  "squared_distance s p
     = (scalar_product (point_minus p (m_point_on_primitive s)) (m_normal s))\<^sup>2
   \<and> squared_distance (s\<lparr>m_d := d'\<rparr>) p = squared_distance s p
   \<and> squared_distance_batch point (s\<lparr>m_d := d'\<rparr>) indices dists
       = squared_distance_batch point s indices dists
   \<and> (length indices \<le> length dists \<longrightarrow>
        (\<exists>ds. squared_distance_batch point s indices dists = Some ds
           \<and> length ds = length dists
           \<and> (\<forall>i<length indices. ds ! i =
                 (scalar_product (point_minus (point (indices ! i)) (m_point_on_primitive s))
                    (m_normal s))\<^sup>2)
           \<and> (\<forall>i<length dists. length indices \<le> i \<longrightarrow> ds ! i = dists ! i)))"
proof -
  have a: "squared_distance s q
     = (scalar_product (point_minus q (m_point_on_primitive s)) (m_normal s))\<^sup>2" for q
    by (simp add: squared_distance_def Let_def power2_eq_square)
  have b: "squared_distance (s\<lparr>m_d := d'\<rparr>) p = squared_distance s p"
    by (simp add: squared_distance_def)
  have c: "squared_distance_batch point (s\<lparr>m_d := d'\<rparr>) indices dists
       = squared_distance_batch point s indices dists"
    unfolding squared_distance_batch_def by (rule squared_distance_loop_cong) simp_all
  have d: "\<exists>ds. squared_distance_batch point s indices dists = Some ds
           \<and> length ds = length dists
           \<and> (\<forall>i<length indices. ds ! i =
                 (scalar_product (point_minus (point (indices ! i)) (m_point_on_primitive s))
                    (m_normal s))\<^sup>2)
           \<and> (\<forall>i<length dists. length indices \<le> i \<longrightarrow> ds ! i = dists ! i)"
    if le: "length indices \<le> length dists"
  proof -
    obtain ds where ds: "squared_distance_loop point s indices 0 dists = Some ds"
      "length ds = length dists"
      "\<forall>j<length dists. ds ! j =
         (if 0 \<le> j \<and> j < length indices
          then squared_distance s (point (indices ! j)) else dists ! j)"
      using squared_distance_loop_result [OF le, of point s 0] by blast
    have "ds ! i = (scalar_product (point_minus (point (indices ! i))
        (m_point_on_primitive s)) (m_normal s))\<^sup>2" if "i < length indices" for i
      using ds(3) that le by (simp add: a)
    moreover have "ds ! i = dists ! i" if "i < length dists" "length indices \<le> i" for i
      using ds(3) that by simp
    ultimately show ?thesis
      using ds(1,2) by (simp add: squared_distance_batch_def)
  qed
  show ?thesis
    using a b c d by blast
qed

theorem squared_distance_anchor_normal_witness:
  "\<exists>ds. squared_distance_batch ((!) [Point_3 0 0 2, Point_3 1 0 (- 3)])
      \<lparr>m_is_valid = True, m_normal_threshold = 9 / 10,
       m_point_on_primitive = Point_3 0 0 0, m_base1 = Vector_3 0 1 0,
       m_base2 = Vector_3 1 0 0, m_normal = Vector_3 0 0 1, m_d = 0\<rparr> [1, 0] [0, 0, 7]
     = Some ds \<and> ds ! 0 = 9 \<and> ds ! 1 = 4 \<and> ds ! 2 = 7"
proof -
  have h: "length [1, 0 :: nat] \<le> length [0, 0, 7 :: real]"
    by simp
  let ?s = "\<lparr>m_is_valid = True, m_normal_threshold = 9 / 10,
       m_point_on_primitive = Point_3 0 0 0, m_base1 = Vector_3 0 1 0,
       m_base2 = Vector_3 1 0 0, m_normal = Vector_3 0 0 1, m_d = 0\<rparr>"
  from squared_distance_anchor_normal
    [of ?s "Point_3 0 0 0" 0 "(!) [Point_3 0 0 2, Point_3 1 0 (- 3)]" "[1, 0]" "[0, 0, 7]"] h
  obtain ds where ds: "squared_distance_batch ((!) [Point_3 0 0 2, Point_3 1 0 (- 3)]) ?s
        [1, 0] [0, 0, 7] = Some ds"
    "\<forall>i<length [1, 0 :: nat]. ds ! i =
        (scalar_product (point_minus (((!) [Point_3 0 0 2, Point_3 1 0 (- 3)]) ([1, 0] ! i))
           (m_point_on_primitive ?s)) (m_normal ?s))\<^sup>2"
    "\<forall>i<length [0, 0, 7 :: real]. length [1, 0 :: nat] \<le> i \<longrightarrow> ds ! i = [0, 0, 7] ! i"
    by blast
  have "ds ! 0 = 9" "ds ! 1 = 4"
    using ds(2) by (simp_all add: scalar_product_def point_minus_def)
  moreover have "ds ! 2 = 7"
    using ds(3) by simp
  ultimately show ?thesis
    using ds(1) by simp
qed

declare cos_to_normal_loop.simps [simp del]

lemma cos_to_normal_loop_step:
  "i < length indices \<Longrightarrow> i < length angles \<Longrightarrow>
   cos_to_normal_loop normal s indices i angles =
     cos_to_normal_loop normal s indices (Suc i)
       (angles[i := \<bar>scalar_product (normal (indices ! i)) (m_normal s)\<bar>])"
  by (subst cos_to_normal_loop.simps) (simp add: vec_at_def vec_set_def)

lemma cos_to_normal_loop_fail:
  "i < length indices \<Longrightarrow> \<not> i < length angles \<Longrightarrow>
   cos_to_normal_loop normal s indices i angles = None"
  by (subst cos_to_normal_loop.simps) (simp add: vec_at_def vec_set_def)

lemma cos_to_normal_loop_done:
  "\<not> i < length indices \<Longrightarrow> cos_to_normal_loop normal s indices i angles = Some angles"
  by (subst cos_to_normal_loop.simps) simp

lemma cos_to_normal_loop_result:
  assumes "length indices \<le> length angles"
  shows "\<exists>as. cos_to_normal_loop normal s indices i angles = Some as
           \<and> length as = length angles
           \<and> (\<forall>j<length angles. as ! j =
                 (if i \<le> j \<and> j < length indices
                  then \<bar>scalar_product (normal (indices ! j)) (m_normal s)\<bar>
                  else angles ! j))"
  using assms
proof (induction "length indices - i" arbitrary: i angles)
  case 0
  then have "\<not> i < length indices" by simp
  then show ?case
    by (simp add: cos_to_normal_loop_done)
next
  case (Suc m)
  then have i: "i < length indices" and il: "i < length angles" by simp_all
  let ?as = "angles[i := \<bar>scalar_product (normal (indices ! i)) (m_normal s)\<bar>]"
  have "m = length indices - Suc i" using Suc.hyps(2) by simp
  moreover have "length indices \<le> length ?as" using Suc.prems by simp
  ultimately obtain as where as: "cos_to_normal_loop normal s indices (Suc i) ?as = Some as"
    "length as = length ?as"
    "\<forall>j<length ?as. as ! j =
        (if Suc i \<le> j \<and> j < length indices
         then \<bar>scalar_product (normal (indices ! j)) (m_normal s)\<bar> else ?as ! j)"
    using Suc.hyps(1) [of "Suc i" ?as] by blast
  have "as ! j = (if i \<le> j \<and> j < length indices
                  then \<bar>scalar_product (normal (indices ! j)) (m_normal s)\<bar>
                  else angles ! j)"
    if "j < length angles" for j
  proof (cases "j = i")
    case True
    then show ?thesis using as(3) that i il by simp
  next
    case False
    then show ?thesis using as(3) that by (auto simp add: Suc_le_eq)
  qed
  then show ?case
    using as(1,2) by (simp add: cos_to_normal_loop_step [OF i il])
qed

lemma cos_to_normal_loop_None:
  assumes "i < length indices" "i \<le> length angles" "length angles < length indices"
  shows "cos_to_normal_loop normal s indices i angles = None"
  using assms
proof (induction "length angles - i" arbitrary: i angles)
  case 0
  then show ?case by (simp add: cos_to_normal_loop_fail)
next
  case (Suc m)
  then have il: "i < length angles" by simp
  let ?as = "angles[i := \<bar>scalar_product (normal (indices ! i)) (m_normal s)\<bar>]"
  have "cos_to_normal_loop normal s indices (Suc i) ?as = None"
    using Suc.hyps(1) [of ?as "Suc i"] Suc.hyps(2) Suc.prems il by simp
  then show ?case
    using Suc.prems il by (simp add: cos_to_normal_loop_step)
qed

section \<open>The parameterization\<close>

declare parameters_loop.simps [simp del]

lemma parameters_loop_step:
  "i < length indices \<Longrightarrow> i < length ps \<Longrightarrow>
   parameters_loop point s indices i ps mn mx =
     parameters_loop point s indices (Suc i)
       (ps[i := projected s (point (indices ! i))])
       (std_min (fst mn) (fst (projected s (point (indices ! i)))),
        std_min (snd mn) (snd (projected s (point (indices ! i)))))
       (std_max (fst mx) (fst (projected s (point (indices ! i)))),
        std_max (snd mx) (snd (projected s (point (indices ! i)))))"
  by (subst parameters_loop.simps) (simp add: vec_at_def vec_set_def projected_def Let_def)

lemma parameters_loop_fail:
  "i < length indices \<Longrightarrow> \<not> i < length ps \<Longrightarrow>
   parameters_loop point s indices i ps mn mx = None"
  by (subst parameters_loop.simps) (simp add: vec_at_def vec_set_def Let_def)

lemma parameters_loop_done:
  "\<not> i < length indices \<Longrightarrow> parameters_loop point s indices i ps mn mx = Some (ps, mn, mx)"
  by (subst parameters_loop.simps) simp

lemma running_min_done: "\<not> i < n \<Longrightarrow> running_min m f i n m"
  by (auto simp add: running_min_def)

lemma running_max_done: "\<not> i < n \<Longrightarrow> running_max m f i n m"
  by (auto simp add: running_max_def)

lemma running_min_step:
  assumes "running_min (std_min m (f i)) f (Suc i) n m'" "i < n"
  shows "running_min m f i n m'"
proof -
  have a: "m' \<le> std_min m (f i)"
    and b: "\<forall>j. Suc i \<le> j \<and> j < n \<longrightarrow> m' \<le> f j"
    and c: "m' = std_min m (f i) \<or> (\<exists>j. Suc i \<le> j \<and> j < n \<and> m' = f j)"
    using assms(1) by (simp_all add: running_min_def)
  have m: "std_min m (f i) \<le> m" "std_min m (f i) \<le> f i"
    by (simp_all add: std_min_def)
  have 1: "m' \<le> m" using a m by linarith
  have 2: "m' \<le> f j" if "i \<le> j" "j < n" for j
  proof (cases "j = i")
    case True then show ?thesis using a m by simp
  next
    case False then show ?thesis using b that by simp
  qed
  have 3: "m' = m \<or> (\<exists>j. i \<le> j \<and> j < n \<and> m' = f j)"
    using c
  proof
    assume "m' = std_min m (f i)"
    then have "m' = m \<or> m' = f i" by (simp add: std_min_def)
    then show ?thesis using assms(2) by auto
  next
    assume "\<exists>j. Suc i \<le> j \<and> j < n \<and> m' = f j"
    then obtain j where "Suc i \<le> j" "j < n" "m' = f j" by blast
    then have "i \<le> j \<and> j < n \<and> m' = f j" by simp
    then show ?thesis by blast
  qed
  show ?thesis
    unfolding running_min_def using 1 2 3 by blast
qed

lemma running_max_step:
  assumes "running_max (std_max m (f i)) f (Suc i) n m'" "i < n"
  shows "running_max m f i n m'"
proof -
  have a: "std_max m (f i) \<le> m'"
    and b: "\<forall>j. Suc i \<le> j \<and> j < n \<longrightarrow> f j \<le> m'"
    and c: "m' = std_max m (f i) \<or> (\<exists>j. Suc i \<le> j \<and> j < n \<and> m' = f j)"
    using assms(1) by (simp_all add: running_max_def)
  have m: "m \<le> std_max m (f i)" "f i \<le> std_max m (f i)"
    by (simp_all add: std_max_def)
  have 1: "m \<le> m'" using a m by linarith
  have 2: "f j \<le> m'" if "i \<le> j" "j < n" for j
  proof (cases "j = i")
    case True then show ?thesis using a m by simp
  next
    case False then show ?thesis using b that by simp
  qed
  have 3: "m' = m \<or> (\<exists>j. i \<le> j \<and> j < n \<and> m' = f j)"
    using c
  proof
    assume "m' = std_max m (f i)"
    then have "m' = m \<or> m' = f i" by (simp add: std_max_def)
    then show ?thesis using assms(2) by auto
  next
    assume "\<exists>j. Suc i \<le> j \<and> j < n \<and> m' = f j"
    then obtain j where "Suc i \<le> j" "j < n" "m' = f j" by blast
    then have "i \<le> j \<and> j < n \<and> m' = f j" by simp
    then show ?thesis by blast
  qed
  show ?thesis
    unfolding running_max_def using 1 2 3 by blast
qed

lemma parameters_loop_result:
  assumes "length indices \<le> length ps"
  shows "\<exists>ps' mn' mx'. parameters_loop point s indices i ps mn mx = Some (ps', mn', mx')
     \<and> length ps' = length ps
     \<and> (\<forall>j<length ps. ps' ! j =
           (if i \<le> j \<and> j < length indices then projected s (point (indices ! j))
            else ps ! j))
     \<and> running_min (fst mn) (\<lambda>j. fst (projected s (point (indices ! j)))) i
          (length indices) (fst mn')
     \<and> running_min (snd mn) (\<lambda>j. snd (projected s (point (indices ! j)))) i
          (length indices) (snd mn')
     \<and> running_max (fst mx) (\<lambda>j. fst (projected s (point (indices ! j)))) i
          (length indices) (fst mx')
     \<and> running_max (snd mx) (\<lambda>j. snd (projected s (point (indices ! j)))) i
          (length indices) (snd mx')"
  using assms
proof (induction "length indices - i" arbitrary: i ps mn mx)
  case 0
  then have "\<not> i < length indices" by simp
  note n = this
  have "\<forall>j<length ps. ps ! j =
       (if i \<le> j \<and> j < length indices then projected s (point (indices ! j)) else ps ! j)"
    using n by auto
  then show ?case
    using parameters_loop_done [OF n, of point s ps mn mx]
      running_min_done [OF n] running_max_done [OF n]
    by (intro exI [of _ ps] exI [of _ mn] exI [of _ mx]) simp
next
  case (Suc m)
  then have i: "i < length indices" and il: "i < length ps" by simp_all
  let ?uv = "projected s (point (indices ! i))"
  let ?ps = "ps[i := ?uv]"
  let ?mn = "(std_min (fst mn) (fst ?uv), std_min (snd mn) (snd ?uv))"
  let ?mx = "(std_max (fst mx) (fst ?uv), std_max (snd mx) (snd ?uv))"
  have "m = length indices - Suc i" using Suc.hyps(2) by simp
  moreover have "length indices \<le> length ?ps" using Suc.prems by simp
  ultimately obtain ps' mn' mx' where
    res: "parameters_loop point s indices (Suc i) ?ps ?mn ?mx = Some (ps', mn', mx')"
    and len: "length ps' = length ?ps"
    and nth: "\<forall>j<length ?ps. ps' ! j =
           (if Suc i \<le> j \<and> j < length indices then projected s (point (indices ! j))
            else ?ps ! j)"
    and m1: "running_min (fst ?mn) (\<lambda>j. fst (projected s (point (indices ! j)))) (Suc i)
          (length indices) (fst mn')"
    and m2: "running_min (snd ?mn) (\<lambda>j. snd (projected s (point (indices ! j)))) (Suc i)
          (length indices) (snd mn')"
    and m3: "running_max (fst ?mx) (\<lambda>j. fst (projected s (point (indices ! j)))) (Suc i)
          (length indices) (fst mx')"
    and m4: "running_max (snd ?mx) (\<lambda>j. snd (projected s (point (indices ! j)))) (Suc i)
          (length indices) (snd mx')"
    using Suc.hyps(1) [of "Suc i" ?ps ?mn ?mx] by blast
  have nth': "ps' ! j = (if i \<le> j \<and> j < length indices
                  then projected s (point (indices ! j)) else ps ! j)"
    if "j < length ps" for j
  proof (cases "j = i")
    case True
    then show ?thesis using nth that i il by simp
  next
    case False
    then show ?thesis using nth that by (auto simp add: Suc_le_eq)
  qed
  have r1: "running_min (fst mn) (\<lambda>j. fst (projected s (point (indices ! j)))) i
          (length indices) (fst mn')"
    by (rule running_min_step) (use m1 i in simp_all)
  have r2: "running_min (snd mn) (\<lambda>j. snd (projected s (point (indices ! j)))) i
          (length indices) (snd mn')"
    by (rule running_min_step) (use m2 i in simp_all)
  have r3: "running_max (fst mx) (\<lambda>j. fst (projected s (point (indices ! j)))) i
          (length indices) (fst mx')"
    by (rule running_max_step) (use m3 i in simp_all)
  have r4: "running_max (snd mx) (\<lambda>j. snd (projected s (point (indices ! j)))) i
          (length indices) (snd mx')"
    by (rule running_max_step) (use m4 i in simp_all)
  have "parameters_loop point s indices i ps mn mx = Some (ps', mn', mx')"
    using res by (simp add: parameters_loop_step [OF i il])
  moreover have "length ps' = length ps"
    using len by simp
  moreover have "\<forall>j<length ps. ps' ! j =
       (if i \<le> j \<and> j < length indices then projected s (point (indices ! j)) else ps ! j)"
    using nth' by blast
  ultimately show ?case
    using r1 r2 r3 r4 by (intro exI [of _ ps'] exI [of _ mn'] exI [of _ mx'] conjI)
qed

lemma parameters_loop_None:
  assumes "i < length indices" "i \<le> length ps" "length ps < length indices"
  shows "parameters_loop point s indices i ps mn mx = None"
  using assms
proof (induction "length ps - i" arbitrary: i ps mn mx)
  case 0
  then show ?case by (simp add: parameters_loop_fail)
next
  case (Suc m)
  then have il: "i < length ps" by simp
  let ?ps = "ps[i := projected s (point (indices ! i))]"
  have "parameters_loop point s indices (Suc i) ?ps mn' mx' = None" for mn' mx'
    using Suc.hyps(1) [of ?ps "Suc i"] Suc.hyps(2) Suc.prems il by simp
  then show ?case
    using Suc.prems il by (simp add: parameters_loop_step)
qed

lemma parameters_unfold:
  assumes "indices \<noteq> []" "parameterSpace \<noteq> []"
  shows "parameters point s indices parameterSpace =
     parameters_loop point s indices (Suc 0)
       (parameterSpace[0 := projected s (point (indices ! 0))])
       (projected s (point (indices ! 0))) (projected s (point (indices ! 0)))"
  using assms by (simp add: parameters_def vec_at_def vec_set_def Let_def projected_def)

lemma parameters_result:
  assumes ne: "indices \<noteq> []" and le: "length indices \<le> length parameterSpace"
  shows "\<exists>ps mn mx. parameters point s indices parameterSpace = Some (ps, mn, mx)
     \<and> length ps = length parameterSpace
     \<and> (\<forall>j<length indices. ps ! j = projected s (point (indices ! j)))
     \<and> (\<forall>j<length parameterSpace. length indices \<le> j \<longrightarrow> ps ! j = parameterSpace ! j)
     \<and> running_min (fst (projected s (point (indices ! 0))))
          (\<lambda>j. fst (projected s (point (indices ! j)))) 0 (length indices) (fst mn)
     \<and> running_min (snd (projected s (point (indices ! 0))))
          (\<lambda>j. snd (projected s (point (indices ! j)))) 0 (length indices) (snd mn)
     \<and> running_max (fst (projected s (point (indices ! 0))))
          (\<lambda>j. fst (projected s (point (indices ! j)))) 0 (length indices) (fst mx)
     \<and> running_max (snd (projected s (point (indices ! 0))))
          (\<lambda>j. snd (projected s (point (indices ! j)))) 0 (length indices) (snd mx)"
proof -
  let ?uv = "projected s (point (indices ! 0))"
  let ?ps = "parameterSpace[0 := ?uv]"
  have pne: "parameterSpace \<noteq> []"
    using ne le by auto
  have le': "length indices \<le> length ?ps"
    using le by simp
  obtain ps mn mx where
    res: "parameters_loop point s indices (Suc 0) ?ps ?uv ?uv = Some (ps, mn, mx)"
    and len: "length ps = length ?ps"
    and nth: "\<forall>j<length ?ps. ps ! j =
           (if Suc 0 \<le> j \<and> j < length indices then projected s (point (indices ! j))
            else ?ps ! j)"
    and m1: "running_min (fst ?uv) (\<lambda>j. fst (projected s (point (indices ! j)))) (Suc 0)
          (length indices) (fst mn)"
    and m2: "running_min (snd ?uv) (\<lambda>j. snd (projected s (point (indices ! j)))) (Suc 0)
          (length indices) (snd mn)"
    and m3: "running_max (fst ?uv) (\<lambda>j. fst (projected s (point (indices ! j)))) (Suc 0)
          (length indices) (fst mx)"
    and m4: "running_max (snd ?uv) (\<lambda>j. snd (projected s (point (indices ! j)))) (Suc 0)
          (length indices) (snd mx)"
    using parameters_loop_result [OF le', of point s "Suc 0" ?uv ?uv] by blast
  have a: "parameters point s indices parameterSpace = Some (ps, mn, mx)"
    using res by (simp add: parameters_unfold [OF ne pne])
  have b: "length ps = length parameterSpace"
    using len by simp
  have c: "ps ! j = projected s (point (indices ! j))" if "j < length indices" for j
  proof (cases "j = 0")
    case True
    then show ?thesis using nth pne by simp
  next
    case False
    then show ?thesis using nth that le by simp
  qed
  have d: "ps ! j = parameterSpace ! j" if "j < length parameterSpace" "length indices \<le> j"
    for j
  proof -
    have "0 < length indices" using ne by simp
    then have "j \<noteq> 0" using that by linarith
    then show ?thesis using nth that by simp
  qed
  have weaken_min: "running_min m f 0 n m'" if "running_min m f (Suc 0) n m'" "m = f 0" "0 < n"
    for m f n m'
  proof -
    have "running_min (std_min m (f 0)) f (Suc 0) n m'"
      using that by (simp add: std_min_def)
    then show ?thesis using that(3) by (rule running_min_step)
  qed
  have weaken_max: "running_max m f 0 n m'" if "running_max m f (Suc 0) n m'" "m = f 0" "0 < n"
    for m f n m'
  proof -
    have "running_max (std_max m (f 0)) f (Suc 0) n m'"
      using that by (simp add: std_max_def)
    then show ?thesis using that(3) by (rule running_max_step)
  qed
  have pos: "0 < length indices" using ne by simp
  have e1: "running_min (fst ?uv) (\<lambda>j. fst (projected s (point (indices ! j)))) 0
          (length indices) (fst mn)"
    using m1 pos by (rule weaken_min [OF _ refl])
  have e2: "running_min (snd ?uv) (\<lambda>j. snd (projected s (point (indices ! j)))) 0
          (length indices) (snd mn)"
    using m2 pos by (rule weaken_min [OF _ refl])
  have e3: "running_max (fst ?uv) (\<lambda>j. fst (projected s (point (indices ! j)))) 0
          (length indices) (fst mx)"
    using m3 pos by (rule weaken_max [OF _ refl])
  have e4: "running_max (snd ?uv) (\<lambda>j. snd (projected s (point (indices ! j)))) 0
          (length indices) (snd mx)"
    using m4 pos by (rule weaken_max [OF _ refl])
  from c have c': "\<forall>j<length indices. ps ! j = projected s (point (indices ! j))"
    by blast
  from d have d': "\<forall>j<length parameterSpace. length indices \<le> j \<longrightarrow> ps ! j = parameterSpace ! j"
    by blast
  show ?thesis
    using a b c' d' e1 e2 e3 e4
    by (intro exI [of _ ps] exI [of _ mn] exI [of _ mx] conjI)
qed

lemma running_min_attained:
  assumes "running_min (f 0) f 0 n m'" "0 < n"
  shows "(\<forall>j<n. m' \<le> f j) \<and> (\<exists>j<n. m' = f j)"
  using assms unfolding running_min_def by auto

lemma running_max_attained:
  assumes "running_max (f 0) f 0 n m'" "0 < n"
  shows "(\<forall>j<n. f j \<le> m') \<and> (\<exists>j<n. m' = f j)"
  using assms unfolding running_max_def by auto

text \<open>
  C8. On a batch \<open>indices\<close> that is not empty and an output vector at least as long,
  \<open>parameters\<close> writes into \<open>parameterSpace[i]\<close>, for every position \<open>i\<close> of the batch,
  the pair \<open>(u_i, v_i)\<close> with \<open>u_i = (point(indices[i]) - m_point_on_primitive) \<cdot> m_base1\<close>
  and \<open>v_i = (point(indices[i]) - m_point_on_primitive) \<cdot> m_base2\<close>; \<open>min[0] \<le> u_i \<le> max[0]\<close>
  and \<open>min[1] \<le> v_i \<le> max[1]\<close>; and each of the four bounds is the coordinate of some
  point of the batch. This holds for every plane, valid or not.
\<close>

theorem parameters_bounds:
  assumes ne: "indices \<noteq> []" and le: "length indices \<le> length parameterSpace"
  shows "\<exists>ps mn mx. parameters point s indices parameterSpace = Some (ps, mn, mx)
     \<and> length ps = length parameterSpace
     \<and> (\<forall>i<length indices.
           ps ! i =
             (scalar_product (point_minus (point (indices ! i)) (m_point_on_primitive s))
                (m_base1 s),
              scalar_product (point_minus (point (indices ! i)) (m_point_on_primitive s))
                (m_base2 s))
           \<and> fst mn \<le> fst (ps ! i) \<and> fst (ps ! i) \<le> fst mx
           \<and> snd mn \<le> snd (ps ! i) \<and> snd (ps ! i) \<le> snd mx)
     \<and> (\<exists>i<length indices. fst mn = fst (ps ! i))
     \<and> (\<exists>i<length indices. snd mn = snd (ps ! i))
     \<and> (\<exists>i<length indices. fst mx = fst (ps ! i))
     \<and> (\<exists>i<length indices. snd mx = snd (ps ! i))"
proof -
  let ?u = "\<lambda>j. fst (projected s (point (indices ! j)))"
  let ?v = "\<lambda>j. snd (projected s (point (indices ! j)))"
  have pos: "0 < length indices" using ne by simp
  obtain ps mn mx where
    res: "parameters point s indices parameterSpace = Some (ps, mn, mx)"
    and len: "length ps = length parameterSpace"
    and nth: "\<forall>j<length indices. ps ! j = projected s (point (indices ! j))"
    and m1: "running_min (?u 0) ?u 0 (length indices) (fst mn)"
    and m2: "running_min (?v 0) ?v 0 (length indices) (snd mn)"
    and m3: "running_max (?u 0) ?u 0 (length indices) (fst mx)"
    and m4: "running_max (?v 0) ?v 0 (length indices) (snd mx)"
    using parameters_result [OF ne le, of point s] by blast
  note a1 = running_min_attained [of ?u, OF m1 pos]
  note a2 = running_min_attained [of ?v, OF m2 pos]
  note a3 = running_max_attained [of ?u, OF m3 pos]
  note a4 = running_max_attained [of ?v, OF m4 pos]
  have each: "ps ! i =
             (scalar_product (point_minus (point (indices ! i)) (m_point_on_primitive s))
                (m_base1 s),
              scalar_product (point_minus (point (indices ! i)) (m_point_on_primitive s))
                (m_base2 s))
           \<and> fst mn \<le> fst (ps ! i) \<and> fst (ps ! i) \<le> fst mx
           \<and> snd mn \<le> snd (ps ! i) \<and> snd (ps ! i) \<le> snd mx"
    if "i < length indices" for i
  proof -
    have "ps ! i = projected s (point (indices ! i))"
      using nth that by simp
    then show ?thesis
      using a1 a2 a3 a4 that by (simp add: projected_def)
  qed
  have b1: "\<exists>i<length indices. fst mn = fst (ps ! i)"
    using a1 nth by auto
  have b2: "\<exists>i<length indices. snd mn = snd (ps ! i)"
    using a2 nth by auto
  have b3: "\<exists>i<length indices. fst mx = fst (ps ! i)"
    using a3 nth by auto
  have b4: "\<exists>i<length indices. snd mx = snd (ps ! i)"
    using a4 nth by auto
  from each have each': "\<forall>i<length indices. ps ! i =
             (scalar_product (point_minus (point (indices ! i)) (m_point_on_primitive s))
                (m_base1 s),
              scalar_product (point_minus (point (indices ! i)) (m_point_on_primitive s))
                (m_base2 s))
           \<and> fst mn \<le> fst (ps ! i) \<and> fst (ps ! i) \<le> fst mx
           \<and> snd mn \<le> snd (ps ! i) \<and> snd (ps ! i) \<le> snd mx"
    by blast
  show ?thesis
    using res len each' b1 b2 b3 b4
    by (intro exI [of _ ps] exI [of _ mn] exI [of _ mx] conjI)
qed

theorem parameters_bounds_witness:
  "\<exists>ps mn mx. parameters ((!) [Point_3 1 2 0, Point_3 3 (- 1) 0, Point_3 4 5 0])
      \<lparr>m_is_valid = True, m_normal_threshold = 9 / 10,
       m_point_on_primitive = Point_3 0 0 0, m_base1 = Vector_3 0 1 0,
       m_base2 = Vector_3 1 0 0, m_normal = Vector_3 0 0 1, m_d = 0\<rparr>
      [2, 0] [(0, 0), (0, 0), (9, 9)] = Some (ps, mn, mx)
     \<and> ps ! 0 = (5, 4) \<and> ps ! 1 = (2, 1)
     \<and> fst mn \<le> 2 \<and> snd mn \<le> 1 \<and> 5 \<le> fst mx \<and> 4 \<le> snd mx"
proof -
  let ?point = "(!) [Point_3 1 2 0, Point_3 3 (- 1) 0, Point_3 4 5 0]"
  let ?s = "\<lparr>m_is_valid = True, m_normal_threshold = 9 / 10,
       m_point_on_primitive = Point_3 0 0 0, m_base1 = Vector_3 0 1 0,
       m_base2 = Vector_3 1 0 0, m_normal = Vector_3 0 0 1, m_d = 0\<rparr>"
  have h1: "[2, 0 :: nat] \<noteq> []"
    by simp
  have h2: "length [2, 0 :: nat] \<le> length [(0, 0), (0, 0), (9, 9 :: real) :: real \<times> real]"
    by simp
  from parameters_bounds [OF h1 h2, of ?point ?s]
  obtain ps mn mx where res: "parameters ?point ?s [2, 0] [(0, 0), (0, 0), (9, 9)]
      = Some (ps, mn, mx)"
    and each: "\<forall>i<length [2, 0 :: nat].
           ps ! i =
             (scalar_product (point_minus (?point ([2, 0] ! i)) (m_point_on_primitive ?s))
                (m_base1 ?s),
              scalar_product (point_minus (?point ([2, 0] ! i)) (m_point_on_primitive ?s))
                (m_base2 ?s))
           \<and> fst mn \<le> fst (ps ! i) \<and> fst (ps ! i) \<le> fst mx
           \<and> snd mn \<le> snd (ps ! i) \<and> snd (ps ! i) \<le> snd mx"
    by blast
  have e0: "ps ! 0 = (5, 4) \<and> 5 \<le> fst mx \<and> 4 \<le> snd mx"
    using each [rule_format, of 0] by (auto simp add: scalar_product_def point_minus_def)
  have e1: "ps ! 1 = (2, 1) \<and> fst mn \<le> 2 \<and> snd mn \<le> 1"
    using each [rule_format, of 1] by (auto simp add: scalar_product_def point_minus_def)
  show ?thesis
    using res e0 e1 by simp
qed

lemma parameters_Some_iff:
  "(\<exists>r. parameters point s indices parameterSpace = Some r) \<longleftrightarrow>
     indices \<noteq> [] \<and> length indices \<le> length parameterSpace"
proof (cases "indices \<noteq> [] \<and> length indices \<le> length parameterSpace")
  case True
  then show ?thesis
    using parameters_result [of indices parameterSpace point s] by blast
next
  case False
  have "parameters point s indices parameterSpace = None"
  proof (cases "indices = [] \<or> parameterSpace = []")
    case True
    then show ?thesis
      by (auto simp add: parameters_def vec_at_def vec_set_def Let_def)
  next
    case ne: False
    then have lt: "length parameterSpace < length indices"
      using False by simp
    let ?uv = "projected s (point (indices ! 0))"
    have "Suc 0 \<le> length (parameterSpace[0 := ?uv])"
      using ne by (simp add: Suc_le_eq)
    moreover have "length (parameterSpace[0 := ?uv]) < length indices"
      using lt by simp
    moreover have "Suc 0 < length indices"
      using calculation by linarith
    ultimately have "parameters_loop point s indices (Suc 0) (parameterSpace[0 := ?uv])
        ?uv ?uv = None"
      by (intro parameters_loop_None)
    then show ?thesis
      using ne by (simp add: parameters_unfold)
  qed
  then show ?thesis
    using False by simp
qed

section \<open>The variant with the base vectors computed after the loop\<close>

declare check_normals_only.simps [simp del]

lemma check_normals_only_step:
  "i < 3 \<Longrightarrow> i < length indices \<Longrightarrow>
   check_normals_only normal indices i s =
     (if deviates normal s (indices ! i) then Some (False, s\<lparr>m_is_valid := False\<rparr>)
      else check_normals_only normal indices (Suc i) s)"
  by (subst check_normals_only.simps) (simp add: vec_at_def deviates_def Let_def)

lemma check_normals_only_done:
  "\<not> i < 3 \<Longrightarrow> check_normals_only normal indices i s = Some (True, s)"
  by (subst check_normals_only.simps) simp

lemma check_normals_only_0:
  assumes "3 \<le> length indices"
  shows "check_normals_only normal indices 0 s =
     Some (if deviates normal s (indices ! 0) \<or> deviates normal s (indices ! 1)
              \<or> deviates normal s (indices ! 2)
           then (False, s\<lparr>m_is_valid := False\<rparr>) else (True, s))"
proof -
  have l: "0 < length indices" "Suc 0 < length indices" "Suc (Suc 0) < length indices"
    using assms by auto
  have s0: "check_normals_only normal indices 0 s =
     (if deviates normal s (indices ! 0) then Some (False, s\<lparr>m_is_valid := False\<rparr>)
      else check_normals_only normal indices (Suc 0) s)"
    by (rule check_normals_only_step) (use l in auto)
  have s1: "check_normals_only normal indices (Suc 0) s =
     (if deviates normal s (indices ! 1) then Some (False, s\<lparr>m_is_valid := False\<rparr>)
      else check_normals_only normal indices (Suc (Suc 0)) s)"
    by (subst check_normals_only_step) (use l in auto)
  have s2: "check_normals_only normal indices (Suc (Suc 0)) s =
     (if deviates normal s (indices ! 2) then Some (False, s\<lparr>m_is_valid := False\<rparr>)
      else Some (True, s))"
    by (subst check_normals_only_step)
      (use l in \<open>auto simp: check_normals_only_done numeral_2_eq_2\<close>)
  show ?thesis
    unfolding s0 s1 s2 by simp
qed

lemma create_shape_hoisted_None:
  "length indices < 3 \<Longrightarrow> create_shape_hoisted point normal indices s = None"
  by (cases indices; cases "tl indices"; cases "tl (tl indices)")
     (auto simp add: create_shape_hoisted_def vec_at_def)

lemma create_shape_hoisted_cases:
  assumes "3 \<le> length indices"
  shows "create_shape_hoisted point normal indices s =
    Some (let t = fitted point indices s;
              p1 = point (indices ! 0); p2 = point (indices ! 1)
          in if sqrt (squared_length (sample_cross point indices)) < 1 / 10000
               then s\<lparr>m_normal := sample_cross point indices\<rparr>
             else if deviates normal t (indices ! 0) \<or> deviates normal t (indices ! 1)
                  \<or> deviates normal t (indices ! 2)
               then t\<lparr>m_is_valid := False\<rparr>
             else (with_basis p1 p2 t)\<lparr>m_is_valid := True\<rparr>)"
proof -
  have "0 < length indices" "1 < length indices" "2 < length indices"
    using assms by auto
  then show ?thesis
    by (simp add: create_shape_hoisted_def vec_at_def Let_def check_normals_only_0 [OF assms]
        sample_cross_def fitted_def with_basis_def)
qed

text \<open>
  C9, as the spec states it, fails: when the first normal of the sample passes the test
  and the second deviates, \<open>create_shape\<close> has written the point on the primitive and
  the two base vectors in its first iteration, and the variant that computes them after
  the loop has not. On the sample \<open>(0,0,0), (1,0,0), (0,1,0)\<close> with the normals
  \<open>(0,0,1), (1,0,0), (0,0,1)\<close> and the threshold \<open>0.9\<close> the two results differ in these
  three fields.
\<close>

theorem create_shape_hoisted_differs:
  "create_shape ((!) [Point_3 0 0 0, Point_3 1 0 0, Point_3 0 1 0])
      ((!) [Vector_3 0 0 1, Vector_3 1 0 0, Vector_3 0 0 1]) [0, 1, 2]
      \<lparr>m_is_valid = False, m_normal_threshold = 9 / 10,
       m_point_on_primitive = Point_3 5 5 5, m_base1 = Vector_3 0 0 0,
       m_base2 = Vector_3 0 0 0, m_normal = Vector_3 0 0 0, m_d = 3\<rparr>
     = Some \<lparr>m_is_valid = False, m_normal_threshold = 9 / 10,
       m_point_on_primitive = Point_3 0 0 0, m_base1 = Vector_3 0 1 0,
       m_base2 = Vector_3 1 0 0, m_normal = Vector_3 0 0 1, m_d = 0\<rparr>
   \<and> create_shape_hoisted ((!) [Point_3 0 0 0, Point_3 1 0 0, Point_3 0 1 0])
      ((!) [Vector_3 0 0 1, Vector_3 1 0 0, Vector_3 0 0 1]) [0, 1, 2]
      \<lparr>m_is_valid = False, m_normal_threshold = 9 / 10,
       m_point_on_primitive = Point_3 5 5 5, m_base1 = Vector_3 0 0 0,
       m_base2 = Vector_3 0 0 0, m_normal = Vector_3 0 0 0, m_d = 3\<rparr>
     = Some \<lparr>m_is_valid = False, m_normal_threshold = 9 / 10,
       m_point_on_primitive = Point_3 5 5 5, m_base1 = Vector_3 0 0 0,
       m_base2 = Vector_3 0 0 0, m_normal = Vector_3 0 0 1, m_d = 0\<rparr>
   \<and> create_shape ((!) [Point_3 0 0 0, Point_3 1 0 0, Point_3 0 1 0])
      ((!) [Vector_3 0 0 1, Vector_3 1 0 0, Vector_3 0 0 1]) [0, 1, 2]
      \<lparr>m_is_valid = False, m_normal_threshold = 9 / 10,
       m_point_on_primitive = Point_3 5 5 5, m_base1 = Vector_3 0 0 0,
       m_base2 = Vector_3 0 0 0, m_normal = Vector_3 0 0 0, m_d = 3\<rparr>
     \<noteq> create_shape_hoisted ((!) [Point_3 0 0 0, Point_3 1 0 0, Point_3 0 1 0])
      ((!) [Vector_3 0 0 1, Vector_3 1 0 0, Vector_3 0 0 1]) [0, 1, 2]
      \<lparr>m_is_valid = False, m_normal_threshold = 9 / 10,
       m_point_on_primitive = Point_3 5 5 5, m_base1 = Vector_3 0 0 0,
       m_base2 = Vector_3 0 0 0, m_normal = Vector_3 0 0 0, m_d = 3\<rparr>"
proof -
  let ?point = "(!) [Point_3 0 0 0, Point_3 1 0 0, Point_3 0 1 0]"
  have len: "3 \<le> length [0, 1, 2 :: nat]"
    by simp
  have c: "sample_cross ?point [0, 1, 2] = Vector_3 0 0 1"
    by (simp add: sample_cross_def cross_product_def point_minus_def)
  have sc: "scaled (Vector_3 0 0 1) 1 = Vector_3 0 0 1"
    by (simp add: scaled_def)
  show ?thesis
    unfolding create_shape_cases [OF len] create_shape_hoisted_cases [OF len]
    by (simp add: Let_def c sc deviates_def squared_length_def scalar_product_def
        with_basis_def fitted_def cross_product_def point_minus_def scaled_def
        del: One_nat_def)
qed

text \<open>
  C9, amended. \<open>create_shape\<close> and the variant are defined on the same samples, and for
  every sample, normals and plane before the call both return the same \<open>m_is_valid\<close>,
  \<open>m_normal\<close> and \<open>m_d\<close> (and leave the threshold alone); when \<open>m_is_valid\<close> is true after
  the call, they return the same plane, so also the same point on the primitive and the
  same base vectors.
\<close>

theorem create_shape_hoisted_agrees:
  "(create_shape_hoisted point normal indices s = None
      \<longleftrightarrow> create_shape point normal indices s = None)
   \<and> (\<forall>r r'. create_shape point normal indices s = Some r
          \<and> create_shape_hoisted point normal indices s = Some r' \<longrightarrow>
        m_is_valid r' = m_is_valid r \<and> m_normal r' = m_normal r \<and> m_d r' = m_d r
        \<and> m_normal_threshold r' = m_normal_threshold r
        \<and> (m_is_valid r \<longrightarrow> r' = r))"
proof (cases "3 \<le> length indices")
  case True
  show ?thesis
    unfolding create_shape_cases [OF True] create_shape_hoisted_cases [OF True]
    by (simp add: Let_def)
next
  case False
  then have "length indices < 3" by simp
  then show ?thesis
    by (simp add: create_shape_None create_shape_hoisted_None)
qed

theorem create_shape_hoisted_agrees_witness:
  "create_shape_hoisted ((!) [Point_3 0 0 0, Point_3 1 0 0, Point_3 0 1 0])
      (\<lambda>k. Vector_3 0 0 1) [0, 1, 2]
      \<lparr>m_is_valid = False, m_normal_threshold = 9 / 10,
       m_point_on_primitive = Point_3 5 5 5, m_base1 = Vector_3 0 0 0,
       m_base2 = Vector_3 0 0 0, m_normal = Vector_3 0 0 0, m_d = 3\<rparr>
   = Some \<lparr>m_is_valid = True, m_normal_threshold = 9 / 10,
       m_point_on_primitive = Point_3 0 0 0, m_base1 = Vector_3 0 1 0,
       m_base2 = Vector_3 1 0 0, m_normal = Vector_3 0 0 1, m_d = 0\<rparr>"
proof -
  let ?point = "(!) [Point_3 0 0 0, Point_3 1 0 0, Point_3 0 1 0]"
  let ?init = "\<lparr>m_is_valid = False, m_normal_threshold = 9 / 10,
       m_point_on_primitive = Point_3 5 5 5, m_base1 = Vector_3 0 0 0,
       m_base2 = Vector_3 0 0 0, m_normal = Vector_3 0 0 0, m_d = 3\<rparr>"
  let ?r = "\<lparr>m_is_valid = True, m_normal_threshold = 9 / 10,
       m_point_on_primitive = Point_3 0 0 0, m_base1 = Vector_3 0 1 0,
       m_base2 = Vector_3 1 0 0, m_normal = Vector_3 0 0 1, m_d = 0\<rparr>"
  note agree = create_shape_hoisted_agrees [of ?point "\<lambda>k. Vector_3 0 0 1" "[0, 1, 2]" ?init]
  have src: "create_shape ?point (\<lambda>k. Vector_3 0 0 1) [0, 1, 2] ?init = Some ?r"
    by (rule create_shape_example)
  then have "create_shape_hoisted ?point (\<lambda>k. Vector_3 0 0 1) [0, 1, 2] ?init \<noteq> None"
    using agree by simp
  then obtain r' where r': "create_shape_hoisted ?point (\<lambda>k. Vector_3 0 0 1) [0, 1, 2] ?init
      = Some r'"
    by blast
  have "m_is_valid ?r"
    by simp
  then have "r' = ?r"
    using agree src r' by blast
  then show ?thesis
    using r' by simp
qed

section \<open>Accesses to the vectors\<close>

lemma squared_distance_batch_Some_iff:
  "(\<exists>ds. squared_distance_batch point s indices dists = Some ds)
     \<longleftrightarrow> length indices \<le> length dists"
proof (cases "length indices \<le> length dists")
  case True
  then show ?thesis
    using squared_distance_loop_result [OF True, of point s 0]
    by (auto simp add: squared_distance_batch_def)
next
  case False
  then have "0 < length indices" "0 \<le> length dists" "length dists < length indices"
    by auto
  then have "squared_distance_loop point s indices 0 dists = None"
    by (rule squared_distance_loop_None)
  then show ?thesis
    using False by (simp add: squared_distance_batch_def)
qed

lemma cos_to_normal_batch_Some_iff:
  "(\<exists>as. cos_to_normal_batch normal s indices angles = Some as)
     \<longleftrightarrow> length indices \<le> length angles"
proof (cases "length indices \<le> length angles")
  case True
  then show ?thesis
    using cos_to_normal_loop_result [OF True, of normal s 0]
    by (auto simp add: cos_to_normal_batch_def)
next
  case False
  then have "0 < length indices" "0 \<le> length angles" "length angles < length indices"
    by auto
  then have "cos_to_normal_loop normal s indices 0 angles = None"
    by (rule cos_to_normal_loop_None)
  then show ?thesis
    using False by (simp add: cos_to_normal_batch_def)
qed

lemma create_shape_Some_iff:
  "(\<exists>s'. create_shape point normal indices s = Some s') \<longleftrightarrow> 3 \<le> length indices"
proof (cases "3 \<le> length indices")
  case True
  then show ?thesis
    by (simp add: create_shape_cases)
next
  case False
  then have "length indices < 3" by simp
  then show ?thesis
    by (simp add: create_shape_None)
qed

text \<open>
  C10. No operation reads or writes a vector out of range under its size precondition,
  and the precondition is needed: \<open>create_shape\<close> returns exactly when the sample has at
  least \<open>minimum_sample_size() = 3\<close> indices; \<open>parameters\<close> returns exactly when the batch
  is not empty and \<open>parameterSpace\<close> is at least as long as the batch; the batch
  \<open>squared_distance\<close> and \<open>cos_to_normal\<close> return exactly when their output vector is at
  least as long as the batch.
\<close>

theorem accesses_in_bounds:
  "((\<exists>s'. create_shape point normal sample s = Some s')
      \<longleftrightarrow> minimum_sample_size \<le> length sample)
   \<and> ((\<exists>r. parameters point s indices parameterSpace = Some r)
      \<longleftrightarrow> indices \<noteq> [] \<and> length indices \<le> length parameterSpace)
   \<and> ((\<exists>ds. squared_distance_batch point s indices dists = Some ds)
      \<longleftrightarrow> length indices \<le> length dists)
   \<and> ((\<exists>as. cos_to_normal_batch normal s indices angles = Some as)
      \<longleftrightarrow> length indices \<le> length angles)"
  using create_shape_Some_iff [of point normal sample s]
    parameters_Some_iff [of point s indices parameterSpace]
    squared_distance_batch_Some_iff [of point s indices dists]
    cos_to_normal_batch_Some_iff [of normal s indices angles]
  by (simp only: minimum_sample_size_def)

theorem accesses_in_bounds_witness:
  "(\<exists>s'. create_shape ((!) [Point_3 0 0 0, Point_3 1 0 0, Point_3 0 1 0])
            (\<lambda>k. Vector_3 0 0 1) [0, 1, 2]
            \<lparr>m_is_valid = True, m_normal_threshold = 9 / 10,
             m_point_on_primitive = Point_3 0 0 0, m_base1 = Vector_3 0 1 0,
             m_base2 = Vector_3 1 0 0, m_normal = Vector_3 0 0 1, m_d = 0\<rparr> = Some s')
   \<and> \<not> (\<exists>r. parameters ((!) [Point_3 0 0 0, Point_3 1 0 0, Point_3 0 1 0])
        \<lparr>m_is_valid = True, m_normal_threshold = 9 / 10,
         m_point_on_primitive = Point_3 0 0 0, m_base1 = Vector_3 0 1 0,
         m_base2 = Vector_3 1 0 0, m_normal = Vector_3 0 0 1, m_d = 0\<rparr> [] [(0, 0)] = Some r)
   \<and> \<not> (\<exists>ds. squared_distance_batch ((!) [Point_3 0 0 0, Point_3 1 0 0, Point_3 0 1 0])
        \<lparr>m_is_valid = True, m_normal_threshold = 9 / 10,
         m_point_on_primitive = Point_3 0 0 0, m_base1 = Vector_3 0 1 0,
         m_base2 = Vector_3 1 0 0, m_normal = Vector_3 0 0 1, m_d = 0\<rparr> [0, 1] [0] = Some ds)
   \<and> (\<exists>as. cos_to_normal_batch (\<lambda>k. Vector_3 0 0 1)
        \<lparr>m_is_valid = True, m_normal_threshold = 9 / 10,
         m_point_on_primitive = Point_3 0 0 0, m_base1 = Vector_3 0 1 0,
         m_base2 = Vector_3 1 0 0, m_normal = Vector_3 0 0 1, m_d = 0\<rparr> [0, 1] [0, 0]
        = Some as)"
proof -
  let ?point = "(!) [Point_3 0 0 0, Point_3 1 0 0, Point_3 0 1 0]"
  let ?s = "\<lparr>m_is_valid = True, m_normal_threshold = 9 / 10,
         m_point_on_primitive = Point_3 0 0 0, m_base1 = Vector_3 0 1 0,
         m_base2 = Vector_3 1 0 0, m_normal = Vector_3 0 0 1, m_d = 0\<rparr>"
  have h1: "minimum_sample_size \<le> length [0, 1, 2 :: nat]"
    by (simp add: minimum_sample_size_def)
  have h2: "\<not> (([] :: nat list) \<noteq> []
      \<and> length ([] :: nat list) \<le> length [(0, 0) :: real \<times> real])"
    by simp
  have h3: "\<not> length [0, 1 :: nat] \<le> length [0 :: real]"
    by simp
  have h4: "length [0, 1 :: nat] \<le> length [0, 0 :: real]"
    by simp
  show ?thesis
    using accesses_in_bounds
        [of ?point "\<lambda>k. Vector_3 0 0 1" "[0, 1, 2]" ?s "[]" "[(0, 0)]" "[0]" "[0, 0]"]
      accesses_in_bounds
        [of ?point "\<lambda>k. Vector_3 0 0 1" "[0, 1, 2]" ?s "[0, 1]" "[(0, 0)]" "[0]" "[0, 0]"]
      h1 h2 h3 h4
    by blast
qed

end
